theory Spec2Isabelle
  imports
    Complex_Main
    "HOL-Library.Char_ord"
    "HOL-Library.List_Lexorder"
    "HOL-Library.Sublist"
begin

section \<open>Data model (types.ts)\<close>

text \<open>
  JavaScript numbers are modelled as reals, so every sum, product and quotient below is
  exact; binary floating-point error is outside the model. Strings are \<open>string\<close>; the
  relational operators of JavaScript on strings (\<open><\<close>, \<open><=\<close>) are the
  lexicographic order on character codes, which is the order \<open>HOL-Library.List_Lexorder\<close>
  and \<open>HOL-Library.Char_ord\<close> put on \<open>string\<close>. An optional field is an
  \<open>option\<close>.
\<close>

datatype TransactionType = INCOME | EXPENSE | TRANSFER

datatype CategoryType = expense | income | investment

datatype TransferDirection = dir_in | dir_out

record ScheduledBudgetChange =
  sc_id :: string
  sc_date :: string
  sc_amount :: real

record Category =
  c_id :: string
  c_name :: string
  c_type :: CategoryType
  monthlyBudget :: real
  rollover :: real
  allocationRule :: real
  color :: string
  startDate :: "string option"
  scheduledChanges :: "ScheduledBudgetChange list option"
  linkedPaymentIndex :: "int option"

record Transaction =
  t_id :: string
  t_date :: string
  t_amount :: real
  description :: string
  categoryId :: "string option"
  accountId :: "string option"
  t_type :: TransactionType
  parentTransactionId :: "string option"
  transferDirection :: "TransferDirection option"
  transferPeerId :: "string option"

record AllocationRule =
  paymentIndex :: int
  percentage :: real
  r_amount :: real
  r_name :: "string option"
  r_note :: "string option"
  isUncertain :: "bool option"

datatype PaymentFrequency = monthly | semi_monthly | weekly

record IncomeSource =
  s_id :: string
  s_name :: string
  currency :: string
  estimatedAmount :: real
  frequency :: PaymentFrequency
  allocations :: "AllocationRule list"
  openingBalance :: "real option"

text \<open>
  Truthiness of an optional string, as in \<^verbatim>\<open>if (t.categoryId)\<close>: \<^verbatim>\<open>undefined\<close> and
  the empty string are falsy.
\<close>

definition truthy :: "string option \<Rightarrow> bool" where
  "truthy s = (case s of None \<Rightarrow> False | Some v \<Rightarrow> v \<noteq> [])"

section \<open>Dates\<close>

text \<open>
  \<^verbatim>\<open>new Date(s).getTime()\<close> for a date-only ISO string \<^verbatim>\<open>YYYY-MM-DD\<close>: the number of
  milliseconds from the epoch to that day's midnight, UTC. The day number is computed
  from the civil date in the proleptic Gregorian calendar. Strings of another shape are
  outside the model (the platform yields NaN or parses them by its own rules).
\<close>

definition digit_val :: "char \<Rightarrow> nat" where
  "digit_val c = of_char c - 48"

definition parse_nat :: "string \<Rightarrow> nat" where
  "parse_nat s = foldl (\<lambda>n c. 10 * n + digit_val c) 0 s"

definition days_from_civil :: "int \<Rightarrow> int \<Rightarrow> int \<Rightarrow> int" where
  "days_from_civil y0 m d =
     (let y = (if m \<le> 2 then y0 - 1 else y0);
          era = y div 400;
          yoe = y - era * 400;
          doy = (153 * (if m > 2 then m - 3 else m + 9) + 2) div 5 + d - 1;
          doe = yoe * 365 + yoe div 4 - yoe div 100 + doy
      in era * 146097 + doe - 719468)"

definition getTime :: "string \<Rightarrow> int" where
  "getTime s =
     86400000 * days_from_civil (int (parse_nat (take 4 s)))
                                (int (parse_nat (take 2 (drop 5 s))))
                                (int (parse_nat (take 2 (drop 8 s))))"

text \<open>
  The documented format of a date (\<^verbatim>\<open>date: string; // ISO YYYY-MM-DD\<close>): the shape
  \<^verbatim>\<open>/^\d{4}-\d{2}-\d{2}$/\<close> and a day that exists in the calendar.
\<close>

definition isDigit :: "char \<Rightarrow> bool" where
  "isDigit c = (c \<in> set ''0123456789'')"

definition isIsoDate :: "string \<Rightarrow> bool" where
  "isIsoDate s =
     (length s = 10 \<and> list_all isDigit (take 4 s) \<and> s ! 4 = CHR ''-''
      \<and> list_all isDigit (take 2 (drop 5 s)) \<and> s ! 7 = CHR ''-''
      \<and> list_all isDigit (drop 8 s))"

definition isLeap :: "int \<Rightarrow> bool" where
  "isLeap y = ((y mod 4 = 0 \<and> y mod 100 \<noteq> 0) \<or> y mod 400 = 0)"

definition daysInMonth :: "int \<Rightarrow> int \<Rightarrow> int" where
  "daysInMonth y m =
     (if m = 2 then (if isLeap y then 29 else 28)
      else if m = 4 \<or> m = 6 \<or> m = 9 \<or> m = 11 then 30 else 31)"

definition validIsoDate :: "string \<Rightarrow> bool" where
  "validIsoDate s =
     (isIsoDate s
      \<and> (let y = int (parse_nat (take 4 s));
              m = int (parse_nat (take 2 (drop 5 s)));
              d = int (parse_nat (take 2 (drop 8 s)))
         in 1 \<le> m \<and> m \<le> 12 \<and> 1 \<le> d \<and> d \<le> daysInMonth y m))"

text \<open>The days of the years before year \<open>y + 1\<close>, counted from year 0 of the proleptic calendar.\<close>

definition yearDays :: "int \<Rightarrow> int" where
  "yearDays y = 365 * y + y div 4 - y div 100 + y div 400"

section \<open>Schedule resolver (Dashboard: getBudgetForDate)\<close>

text \<open>
  \<^verbatim>\<open>[...cat.scheduledChanges].sort((a, b) => new Date(b.date).getTime() - new Date(a.date).getTime())
       .find(change => change.date <= dateStr)\<close>
  \<^verbatim>\<open>Array.prototype.sort\<close> is stable, and so is \<^const>\<open>sort_key\<close>; sorting by the
  negated time is the descending order of the comparator.
\<close>

definition getBudgetForDate :: "Category \<Rightarrow> string \<Rightarrow> real" where
  "getBudgetForDate cat dateStr =
     (case scheduledChanges cat of
        None \<Rightarrow> monthlyBudget cat
      | Some chs \<Rightarrow>
          if length chs > 0 then
            (case find (\<lambda>change. sc_date change \<le> dateStr)
                       (sort_key (\<lambda>change. - getTime (sc_date change)) chs) of
               Some activeChange \<Rightarrow> sc_amount activeChange
             | None \<Rightarrow> monthlyBudget cat)
          else monthlyBudget cat)"

text \<open>The schedule of a category as a list: no list and the empty list behave alike.\<close>

definition schedule :: "Category \<Rightarrow> ScheduledBudgetChange list" where
  "schedule cat = (case scheduledChanges cat of None \<Rightarrow> [] | Some chs \<Rightarrow> chs)"

text \<open>
  On the dates of a schedule, the string order used by \<^verbatim>\<open>find\<close> and the time order
  used by \<^verbatim>\<open>sort\<close> agree. Dates of the documented format have this property
  (lemma \<open>valid_dates_agree\<close>).
\<close>

definition dates_agree :: "ScheduledBudgetChange list \<Rightarrow> bool" where
  "dates_agree chs =
     list_all (\<lambda>a. list_all (\<lambda>b. (sc_date a \<le> sc_date b) = (getTime (sc_date a) \<le> getTime (sc_date b))) chs) chs"

section \<open>Deleting a transaction\<close>

text \<open>Dashboard (first revision) and Transactions.tsx (first revision): the id and its children.\<close>

definition deleteTransaction :: "string \<Rightarrow> Transaction list \<Rightarrow> Transaction list" where
  "deleteTransaction i prev =
     (let children = filter (\<lambda>t. parentTransactionId t = Some i) prev;
          idsToDelete = i # map t_id children
      in filter (\<lambda>t. t_id t \<notin> set idsToDelete) prev)"

text \<open>
  Transactions.tsx and Dashboard, account-aware revision: an unknown id changes nothing,
  and a transfer takes its peer with it.
\<close>

definition deleteTransaction_acc :: "string \<Rightarrow> Transaction list \<Rightarrow> Transaction list" where
  "deleteTransaction_acc i prev =
     (case find (\<lambda>t. t_id t = i) prev of
        None \<Rightarrow> prev
      | Some txToDelete \<Rightarrow>
          (let children = filter (\<lambda>t. parentTransactionId t = Some i) prev;
               idsToDelete = [i] @ map t_id children
                 @ (if t_type txToDelete = TRANSFER \<and> truthy (transferPeerId txToDelete)
                    then [the (transferPeerId txToDelete)] else [])
           in filter (\<lambda>t. t_id t \<notin> set idsToDelete) prev))"


section \<open>Sums and rounding\<close>

text \<open>\<^verbatim>\<open>xs.reduce((sum, t) => sum + t.amount, 0)\<close>\<close>

definition sumAmounts :: "Transaction list \<Rightarrow> real" where
  "sumAmounts xs = foldl (\<lambda>sum t. sum + t_amount t) 0 xs"

text \<open>
  \<^verbatim>\<open>parseFloat(x.toFixed(2))\<close>: \<^verbatim>\<open>toFixed\<close> rounds the magnitude to the nearest
  hundredth, a tie going up, and keeps the sign; from \<open>10\<^sup>2\<^sup>1\<close> on it prints the number
  itself.
\<close>

definition toFixed2 :: "real \<Rightarrow> real" where
  "toFixed2 x =
     (if \<bar>x\<bar> \<ge> 10 ^ 21 then x
      else if x < 0 then - (of_int \<lfloor>- x * 100 + 1 / 2\<rfloor> / 100)
      else of_int \<lfloor>x * 100 + 1 / 2\<rfloor> / 100)"

section \<open>Allocation engine (Dashboard: handleDistributeIncome)\<close>

datatype AllocationDateMode = previous | current

text \<open>
  What the handler reads from the component: the pool (\<^verbatim>\<open>totalUnallocatedAvailable\<close>, or
  the amount typed in when the second revision funds manually), the dates, the parent
  transaction (which the two revisions pick in their own ways), the selected rule
  \<^verbatim>\<open>activeSource?.allocations[selectedAllocationIndex]\<close>, whether the duplicate warning
  is raised, the answers to the two \<^verbatim>\<open>confirm\<close> dialogs, the ids \<^verbatim>\<open>uuidv4()\<close> returns
  (the k-th new transaction gets \<open>fresh k\<close>) and the text of a number in a template
  string.
\<close>

record DistributeInput =
  poolAmount :: real
  allocationDateMode :: AllocationDateMode
  today :: string
  viewMonthStr :: string
  prevMonthStr :: string
  prevMonthEndStr :: string
  effectiveParentTxId :: "string option"
  selectedRule :: "AllocationRule option"
  duplicateWarning :: bool
  confirmDuplicate :: bool
  confirmProportional :: bool
  useManualFunding :: bool
  fresh :: "nat \<Rightarrow> string"
  numText :: "real \<Rightarrow> string"

datatype DistributeStop =
    NoFunds | PreviousMonthFullyFunded | NoRule | DeclinedDuplicate
  | DeclinedProportional | NoAllocationsCreated

definition allocationDate :: "DistributeInput \<Rightarrow> string" where
  "allocationDate inp =
     (if allocationDateMode inp = previous then prevMonthEndStr inp
      else if \<not> prefix (viewMonthStr inp) (today inp) then viewMonthStr inp @ ''-01''
      else today inp)"

text \<open>
  \<^verbatim>\<open>xs.forEach(x => { if (keep x) newTransactions.push({ id: uuidv4(), ... }) })\<close>: the
  accumulator is the array being filled, and its length is the number of ids drawn so far.
\<close>

fun pushEach :: "('a \<Rightarrow> bool) \<Rightarrow> (string \<Rightarrow> 'a \<Rightarrow> Transaction) \<Rightarrow> (nat \<Rightarrow> string)
                   \<Rightarrow> 'a list \<Rightarrow> Transaction list \<Rightarrow> Transaction list" where
  "pushEach keep mk ids [] acc = acc"
| "pushEach keep mk ids (x # xs) acc =
     pushEach keep mk ids xs (if keep x then acc @ [mk (ids (length acc)) x] else acc)"

subsection \<open>Gap fill for the previous month\<close>

definition allocatedInMonth :: "Transaction list \<Rightarrow> string \<Rightarrow> Category \<Rightarrow> real" where
  "allocatedInMonth transactions monthStr cat =
     sumAmounts (filter (\<lambda>t. categoryId t = Some (c_id cat) \<and> t_type t = INCOME
                              \<and> prefix monthStr (t_date t)) transactions)"

definition deficits :: "Transaction list \<Rightarrow> string \<Rightarrow> string \<Rightarrow> Category list \<Rightarrow> (Category \<times> real) list" where
  "deficits transactions monthStr dateStr targetCategories =
     filter (\<lambda>d. snd d > 0)
       (map (\<lambda>cat. (cat, max 0 (getBudgetForDate cat dateStr - allocatedInMonth transactions monthStr cat)))
            targetCategories)"

definition totalDeficit :: "(Category \<times> real) list \<Rightarrow> real" where
  "totalDeficit ds = foldl (\<lambda>sum d. sum + snd d) 0 ds"

definition gapFillTx :: "string \<Rightarrow> real \<Rightarrow> string \<Rightarrow> (Category \<times> real) \<Rightarrow> Transaction" where
  "gapFillTx dateStr ratio newId d =
     \<lparr> t_id = newId, t_date = dateStr, t_amount = toFixed2 (snd d * ratio),
       description = ''Gap Fill: '' @ c_name (fst d), categoryId = Some (c_id (fst d)),
       accountId = None, t_type = INCOME, parentTransactionId = None,
       transferDirection = None, transferPeerId = None \<rparr>"

definition gapFill :: "DistributeInput \<Rightarrow> Transaction list \<Rightarrow> Category list
                         \<Rightarrow> DistributeStop + Transaction list" where
  "gapFill inp transactions targetCategories =
     (let dateStr = allocationDate inp;
          ds = deficits transactions (prevMonthStr inp) dateStr targetCategories
      in if totalDeficit ds = 0 then Inl PreviousMonthFullyFunded
         else
           (let ratio = min 1 (poolAmount inp / totalDeficit ds)
            in Inr (pushEach (\<lambda>d. snd d * ratio > 0.01) (gapFillTx dateStr ratio) (fresh inp) ds [])))"

subsection \<open>Current month: percentage rule with linked-payment override\<close>

definition multiplierFor :: "AllocationRule \<Rightarrow> Category \<Rightarrow> real" where
  "multiplierFor rule cat =
     (case linkedPaymentIndex cat of
        None \<Rightarrow> percentage rule / 100
      | Some l \<Rightarrow>
          if l \<noteq> 0 \<and> l > 0 then (if l = paymentIndex rule then 1 else 0)
          else percentage rule / 100)"

text \<open>The entries \<^verbatim>\<open>{ cat, share, multiplier }\<close> of \<^verbatim>\<open>targets\<close>.\<close>

definition targets :: "AllocationRule \<Rightarrow> string \<Rightarrow> Category list \<Rightarrow> (Category \<times> real \<times> real) list" where
  "targets rule dateStr targetCategories =
     map (\<lambda>cat. let budget = getBudgetForDate cat dateStr;
                     multiplier = multiplierFor rule cat;
                     share = budget * multiplier
                 in (cat, share, multiplier)) targetCategories"

definition potentialAllocation :: "(Category \<times> real \<times> real) list \<Rightarrow> real" where
  "potentialAllocation ts = foldl (\<lambda>sum e. sum + fst (snd e)) 0 ts"

definition finalRatio :: "real \<Rightarrow> (Category \<times> real \<times> real) list \<Rightarrow> real" where
  "finalRatio pool ts =
     (if potentialAllocation ts > pool then pool / potentialAllocation ts else 1)"

definition allocationTx :: "DistributeInput \<Rightarrow> AllocationRule \<Rightarrow> string \<Rightarrow> real \<Rightarrow> string
                              \<Rightarrow> (Category \<times> real \<times> real) \<Rightarrow> Transaction" where
  "allocationTx inp rule dateStr ratio newId e =
     (let cat = fst e; share = fst (snd e); multiplier = snd (snd e);
          isStrict = (multiplier = 1);
          desc = (if isStrict then ''Allocated: '' @ c_name cat @ '' (100% via Linked Payment)''
                  else if useManualFunding inp
                    then ''Manual Allocation: '' @ c_name cat @ '' ('' @ numText inp (percentage rule) @ ''%)''
                  else ''Allocated: '' @ c_name cat @ '' ('' @ numText inp (percentage rule) @ ''%)'')
      in \<lparr> t_id = newId, t_date = dateStr, t_amount = toFixed2 (share * ratio),
           description = desc, categoryId = Some (c_id cat), accountId = None, t_type = INCOME,
           parentTransactionId = effectiveParentTxId inp,
           transferDirection = None, transferPeerId = None \<rparr>)"

definition currentFill :: "DistributeInput \<Rightarrow> Category list \<Rightarrow> DistributeStop + Transaction list" where
  "currentFill inp targetCategories =
     (case selectedRule inp of
        None \<Rightarrow> Inl NoRule
      | Some rule \<Rightarrow>
          if duplicateWarning inp \<and> \<not> confirmDuplicate inp then Inl DeclinedDuplicate
          else
            (let dateStr = allocationDate inp;
                 ts = targets rule dateStr targetCategories
             in if potentialAllocation ts > poolAmount inp \<and> \<not> confirmProportional inp
                then Inl DeclinedProportional
                else
                  (let ratio = finalRatio (poolAmount inp) ts
                   in Inr (pushEach (\<lambda>e. fst (snd e) * ratio > 0.01)
                                    (allocationTx inp rule dateStr ratio) (fresh inp) ts []))))"

text \<open>
  The new transactions of one run. First revision: the pool is the computed
  \<^verbatim>\<open>totalUnallocatedAvailable\<close>, manual funding does not exist, and an empty result is
  reported and changes nothing.
\<close>

definition newAllocations :: "DistributeInput \<Rightarrow> Transaction list \<Rightarrow> Category list
                                \<Rightarrow> DistributeStop + Transaction list" where
  "newAllocations inp transactions categories =
     (if poolAmount inp \<le> 0 then Inl NoFunds
      else
        (let targetCategories = filter (\<lambda>c. c_type c = expense) categories
         in if allocationDateMode inp = previous then gapFill inp transactions targetCategories
            else currentFill inp targetCategories))"


text \<open>Second revision: the result is appended even when it is empty.\<close>

text \<open>The ledger after a handler ran: a handler that stops early never calls \<^verbatim>\<open>setTransactions\<close>.\<close>

definition ledgerAfter :: "'e + Transaction list \<Rightarrow> Transaction list \<Rightarrow> Transaction list" where
  "ledgerAfter r transactions = (case r of Inl stop \<Rightarrow> transactions | Inr updated \<Rightarrow> updated)"

definition handleDistributeIncome_acc :: "DistributeInput \<Rightarrow> Transaction list \<Rightarrow> Category list
                                        \<Rightarrow> DistributeStop + Transaction list" where
  "handleDistributeIncome_acc inp transactions categories =
     (case newAllocations inp transactions categories of
        Inl stop \<Rightarrow> Inl stop
      | Inr newTransactions \<Rightarrow> Inr (transactions @ newTransactions))"


section \<open>Unallocated pool\<close>

definition isLegacySystemTx :: "Transaction \<Rightarrow> bool" where
  "isLegacySystemTx t =
     (description t = ''Funds Distributed to Envelopes''
      \<or> description t = ''Unallocated Remainder''
      \<or> description t = ''Filled Envelopes'')"

text \<open>\<^verbatim>\<open>categories.find(c => c.id === t.categoryId)\<close>\<close>

definition findCategory :: "Category list \<Rightarrow> string option \<Rightarrow> Category option" where
  "findCategory categories cid =
     (case cid of None \<Rightarrow> None | Some v \<Rightarrow> find (\<lambda>c. c_id c = v) categories)"

subsection \<open>Dashboard, first revision\<close>

definition grossIncomeTransactions :: "Category list \<Rightarrow> string \<Rightarrow> Transaction list \<Rightarrow> Transaction list" where
  "grossIncomeTransactions categories endOfViewMonthStr transactions =
     filter (\<lambda>t.
        if t_type t \<noteq> INCOME then False
        else if t_date t > endOfViewMonthStr then False
        else if isLegacySystemTx t then False
        else if \<not> truthy (categoryId t) then True
        else (case findCategory categories (categoryId t) of
                Some cat \<Rightarrow> c_type cat = income
              | None \<Rightarrow> False)) transactions"

definition allocatedTransactions :: "Category list \<Rightarrow> string \<Rightarrow> Transaction list \<Rightarrow> Transaction list" where
  "allocatedTransactions categories endOfViewMonthStr transactions =
     filter (\<lambda>t.
        if t_type t \<noteq> INCOME then False
        else if t_date t > endOfViewMonthStr then False
        else if \<not> truthy (categoryId t) then False
        else (case findCategory categories (categoryId t) of
                Some cat \<Rightarrow> c_type cat = expense \<or> c_type cat = investment
              | None \<Rightarrow> False)) transactions"

definition uncategorizedExpenses :: "string \<Rightarrow> Transaction list \<Rightarrow> real" where
  "uncategorizedExpenses endOfViewMonthStr transactions =
     sumAmounts (filter (\<lambda>t. t_type t = EXPENSE \<and> \<not> truthy (categoryId t)
                             \<and> t_date t \<le> endOfViewMonthStr) transactions)"

text \<open>\<^verbatim>\<open>incomeSources[0]?.openingBalance || 0\<close>\<close>

definition openingBalanceOf :: "IncomeSource list \<Rightarrow> real" where
  "openingBalanceOf incomeSources =
     (case incomeSources of
        [] \<Rightarrow> 0
      | activeSource # _ \<Rightarrow> (case openingBalance activeSource of None \<Rightarrow> 0 | Some b \<Rightarrow> b))"

definition totalUnallocatedAvailable :: "IncomeSource list \<Rightarrow> Category list \<Rightarrow> string
                                           \<Rightarrow> Transaction list \<Rightarrow> real" where
  "totalUnallocatedAvailable incomeSources categories endOfViewMonthStr transactions =
     openingBalanceOf incomeSources
     + sumAmounts (grossIncomeTransactions categories endOfViewMonthStr transactions)
     - sumAmounts (allocatedTransactions categories endOfViewMonthStr transactions)
     - uncategorizedExpenses endOfViewMonthStr transactions"

subsection \<open>Transactions.tsx, first revision\<close>

definition totalUnallocatedAvailable_tx :: "Category list \<Rightarrow> Transaction list \<Rightarrow> real" where
  "totalUnallocatedAvailable_tx categories transactions =
     (let grossIncome =
            sumAmounts
              (filter (\<lambda>t. description t \<noteq> ''Funds Distributed to Envelopes''
                            \<and> description t \<noteq> ''Unallocated Remainder''
                            \<and> description t \<noteq> ''Filled Envelopes'')
                 (filter (\<lambda>t. t_type t = INCOME
                               \<and> (\<not> truthy (categoryId t)
                                  \<or> map_option c_type (findCategory categories (categoryId t)) = Some income))
                    transactions));
          allocated =
            sumAmounts
              (filter (\<lambda>t. case findCategory categories (categoryId t) of
                              Some cat \<Rightarrow> c_type cat = expense \<or> c_type cat = investment
                            | None \<Rightarrow> False)
                 (filter (\<lambda>t. t_type t = INCOME \<and> truthy (categoryId t)) transactions));
          uncategorized =
            sumAmounts (filter (\<lambda>t. t_type t = EXPENSE \<and> \<not> truthy (categoryId t)) transactions)
      in grossIncome - allocated - uncategorized)"

subsection \<open>The pool as the specification words it\<close>

text \<open>
  The type of the category a transaction is tagged to, when it is tagged and the
  category exists.
\<close>

definition taggedType :: "Category list \<Rightarrow> Transaction \<Rightarrow> CategoryType option" where
  "taggedType categories t =
     (if truthy (categoryId t) then map_option c_type (findCategory categories (categoryId t))
      else None)"

definition pool_spec :: "real \<Rightarrow> Category list \<Rightarrow> Transaction list \<Rightarrow> real" where
  "pool_spec opening categories transactions =
     opening
     + sum_list (map t_amount
         (filter (\<lambda>t. t_type t = INCOME \<and> \<not> isLegacySystemTx t
                       \<and> (\<not> truthy (categoryId t) \<or> taggedType categories t = Some income))
            transactions))
     - sum_list (map t_amount
         (filter (\<lambda>t. t_type t = INCOME
                       \<and> (taggedType categories t = Some expense
                          \<or> taggedType categories t = Some investment))
            transactions))
     - sum_list (map t_amount
         (filter (\<lambda>t. t_type t = EXPENSE \<and> \<not> truthy (categoryId t)) transactions))"


section \<open>One-time expenses and funding\<close>

text \<open>
  \<^verbatim>\<open>toLowerCase\<close> on the ASCII letters (a letter outside ASCII is left as it is),
  \<^verbatim>\<open>s.split(sep)[0]\<close> and \<^verbatim>\<open>xs.join(', ')\<close>.
\<close>

definition lower_char :: "char \<Rightarrow> char" where
  "lower_char c =
     (case map_of (zip ''ABCDEFGHIJKLMNOPQRSTUVWXYZ'' ''abcdefghijklmnopqrstuvwxyz'') c of
        Some l \<Rightarrow> l
      | None \<Rightarrow> c)"

definition toLowerCase :: "string \<Rightarrow> string" where
  "toLowerCase s = map lower_char s"

fun beforeSep :: "string \<Rightarrow> string \<Rightarrow> string" where
  "beforeSep sep [] = []"
| "beforeSep sep (c # cs) = (if prefix sep (c # cs) then [] else c # beforeSep sep cs)"

fun joinComma :: "string list \<Rightarrow> string" where
  "joinComma [] = []"
| "joinComma [x] = x"
| "joinComma (x # y # ys) = x @ '', '' @ joinComma (y # ys)"

text \<open>
  \<^verbatim>\<open>fundingSources: Record<string, number>\<close> is the list of its entries in the order
  \<^verbatim>\<open>Object.entries\<close> gives them.
\<close>

type_synonym FundingSources = "(string \<times> real) list"

definition totalFunded :: "FundingSources \<Rightarrow> real" where
  "totalFunded fundingSources = foldl (\<lambda>a b. a + b) 0 (map snd fundingSources)"

definition sourceNames :: "Category list \<Rightarrow> FundingSources \<Rightarrow> string" where
  "sourceNames categories fundingSources =
     joinComma
       (filter (\<lambda>n. n \<noteq> [])
          (List.map_filter
             (\<lambda>e. map_option c_name (find (\<lambda>c. c_id c = fst e) categories))
             (filter (\<lambda>e. snd e > 0) fundingSources)))"

datatype FundingStop =
    InvalidAmount
  | NoTarget
  | NoOtherCategory
  | InsufficientFunds (totalExpense: real) (covered: real) (needed: real) (available: real)

subsection \<open>Dashboard, first revision: handleCreateOneTimeExpense\<close>

record OneTimeInput =
  oneTimeAmount :: "real option"
  oneTimeDesc :: string
  oneTimeDate :: string
  fundingSources :: FundingSources

definition movedTx :: "string \<Rightarrow> string \<Rightarrow> string option \<Rightarrow> string \<Rightarrow> (string \<times> real) \<Rightarrow> Transaction" where
  "movedTx dateStr desc parent newId e =
     \<lparr> t_id = newId, t_date = dateStr, t_amount = - snd e,
       description = ''Moved for One-Time: '' @ desc, categoryId = Some (fst e),
       accountId = None, t_type = INCOME, parentTransactionId = parent,
       transferDirection = None, transferPeerId = None \<rparr>"

text \<open>
  \<open>oneTimeAmount\<close> is \<^verbatim>\<open>parseFloat(oneTimeAmount)\<close>, \<open>None\<close> for NaN; \<open>pool\<close> is the
  \<^verbatim>\<open>totalUnallocatedAvailable\<close> of the render. The result is the new category list and
  the new ledger.
\<close>

definition handleCreateOneTimeExpense ::
  "(nat \<Rightarrow> string) \<Rightarrow> real \<Rightarrow> OneTimeInput \<Rightarrow> Category list \<Rightarrow> Transaction list
     \<Rightarrow> FundingStop + (Category list \<times> Transaction list)" where
  "handleCreateOneTimeExpense ids pool inp categories transactions =
     (case oneTimeAmount inp of
        None \<Rightarrow> Inl InvalidAmount
      | Some expenseAmount \<Rightarrow>
          if expenseAmount \<le> 0 then Inl InvalidAmount
          else
            (let funded = totalFunded (fundingSources inp);
                 remainderFromPool = max 0 (expenseAmount - funded)
             in if remainderFromPool > pool + 0.01
                then Inl (InsufficientFunds expenseAmount funded remainderFromPool pool)
                else
                  (let found = find (\<lambda>c. toLowerCase (c_name c) = ''other expenses'') categories;
                       otherCategory =
                         (case found of
                            Some c \<Rightarrow> c
                          | None \<Rightarrow>
                              \<lparr> c_id = ids 0, c_name = ''Other Expenses'', c_type = expense,
                                monthlyBudget = 0, rollover = 0, allocationRule = 0,
                                color = ''#64748b'', startDate = Some (oneTimeDate inp),
                                scheduledChanges = Some [], linkedPaymentIndex = None \<rparr>);
                       drawn = (case found of Some c \<Rightarrow> 0 | None \<Rightarrow> 1);
                       txs = pushEach (\<lambda>e. \<not> snd e \<le> 0)
                               (movedTx (oneTimeDate inp) (oneTimeDesc inp) None)
                               (\<lambda>k. ids (drawn + k)) (fundingSources inp) [];
                       names = sourceNames categories (fundingSources inp);
                       finalDesc = (if names \<noteq> [] then oneTimeDesc inp @ '' (Funded by: '' @ names @ '')''
                                    else oneTimeDesc inp);
                       expenseTx =
                         \<lparr> t_id = ids (drawn + length txs), t_date = oneTimeDate inp,
                           t_amount = expenseAmount, description = finalDesc,
                           categoryId = Some (c_id otherCategory), accountId = None,
                           t_type = EXPENSE, parentTransactionId = None,
                           transferDirection = None, transferPeerId = None \<rparr>
                   in Inr ((case found of Some c \<Rightarrow> categories | None \<Rightarrow> categories @ [otherCategory]),
                           (txs @ [expenseTx]) @ transactions))))"

subsection \<open>Transactions.tsx, first revision: executeFunding\<close>

text \<open>
  \<^verbatim>\<open>childrenMap.get(id) || []\<close>: the map is filled from the transactions whose
  \<^verbatim>\<open>parentTransactionId\<close> is truthy, under that id, in ledger order.
\<close>

definition childrenOf :: "string \<Rightarrow> Transaction list \<Rightarrow> Transaction list" where
  "childrenOf i transactions =
     filter (\<lambda>t. truthy (parentTransactionId t) \<and> parentTransactionId t = Some i) transactions"

definition oldFundedAmount :: "Transaction list \<Rightarrow> real" where
  "oldFundedAmount oldChildren = foldl (\<lambda>sum c. sum + \<bar>t_amount c\<bar>) 0 oldChildren"

definition executeFunding ::
  "(nat \<Rightarrow> string) \<Rightarrow> Category list \<Rightarrow> Transaction option \<Rightarrow> FundingSources \<Rightarrow> Transaction list
     \<Rightarrow> FundingStop + Transaction list" where
  "executeFunding ids categories fundingTx sources transactions =
     (case fundingTx of
        None \<Rightarrow> Inl NoTarget
      | Some tx \<Rightarrow>
          (let funded = totalFunded sources;
               expenseAmount = t_amount tx;
               remainderFromPool = max 0 (expenseAmount - funded);
               oldChildren = childrenOf (t_id tx) transactions;
               effectiveAvailable =
                 totalUnallocatedAvailable_tx categories transactions + oldFundedAmount oldChildren
           in if remainderFromPool > effectiveAvailable + 0.01
              then Inl (InsufficientFunds expenseAmount funded remainderFromPool effectiveAvailable)
              else
                (case find (\<lambda>c. toLowerCase (c_name c) = ''other expenses'') categories of
                   None \<Rightarrow> Inl NoOtherCategory
                 | Some otherCategory \<Rightarrow>
                     (let newTxs = pushEach (\<lambda>e. \<not> snd e \<le> 0)
                                     (movedTx (t_date tx) (description tx) (Some (t_id tx)))
                                     ids sources [];
                          names = sourceNames categories sources;
                          cleanDesc = beforeSep '' (Funded by:'' (description tx);
                          newDesc = (if names \<noteq> [] then cleanDesc @ '' (Funded by: '' @ names @ '')''
                                     else cleanDesc);
                          updatedTargetTx = tx\<lparr>description := newDesc,
                                               categoryId := Some (c_id otherCategory)\<rparr>;
                          idsToRemove = t_id tx # map t_id oldChildren
                      in Inr ([updatedTargetTx] @ newTxs
                              @ filter (\<lambda>t. t_id t \<notin> set idsToRemove) transactions)))))"

subsection \<open>Transactions.tsx, account-aware revision: executeFunding\<close>





text \<open>The category and amount of every child of a transaction, in ledger order.\<close>

definition childPairs :: "string \<Rightarrow> Transaction list \<Rightarrow> (string option \<times> real) list" where
  "childPairs i transactions =
     map (\<lambda>t. (categoryId t, t_amount t)) (filter (\<lambda>t. parentTransactionId t = Some i) transactions)"





section \<open>Editing a transaction (Transactions.tsx: handleSaveEdit)\<close>





section \<open>Import normalizer (Transactions.tsx: parseDate, executeImport)\<close>

subsection \<open>Dates\<close>










subsection \<open>Amounts\<close>



subsection \<open>Rows\<close>

datatype CsvMode = single | split










section \<open>Example data\<close>

definition ex_cat :: Category where
  "ex_cat = \<lparr> c_id = ''c1'', c_name = ''Rent'', c_type = expense, monthlyBudget = 100,
     rollover = 0, allocationRule = 0, color = ''#fff'', startDate = None,
     scheduledChanges = Some [
        \<lparr> sc_id = ''B'', sc_date = ''2024-06-01'', sc_amount = 200 \<rparr>,
        \<lparr> sc_id = ''A'', sc_date = ''2024-03-01'', sc_amount = 150 \<rparr>],
     linkedPaymentIndex = None \<rparr>"

definition tr_a :: Transaction where
  "tr_a = \<lparr> t_id = ''a'', t_date = ''2024-05-02'', t_amount = 50, description = ''To savings'',
     categoryId = None, accountId = Some ''acc1'', t_type = TRANSFER, parentTransactionId = None,
     transferDirection = Some dir_out, transferPeerId = Some ''b'' \<rparr>"

definition tr_b :: Transaction where
  "tr_b = \<lparr> t_id = ''b'', t_date = ''2024-05-02'', t_amount = 50, description = ''To savings'',
     categoryId = None, accountId = Some ''acc2'', t_type = TRANSFER, parentTransactionId = None,
     transferDirection = Some dir_in, transferPeerId = Some ''a'' \<rparr>"

definition tr_c :: Transaction where
  "tr_c = \<lparr> t_id = ''c'', t_date = ''2024-05-03'', t_amount = 20, description = ''Allocated: Food (100%)'',
     categoryId = Some ''food'', accountId = None, t_type = INCOME, parentTransactionId = Some ''a'',
     transferDirection = None, transferPeerId = None \<rparr>"

text \<open>Envelopes, a rule and a run of the allocation engine in May 2024.\<close>

definition ex_envelope :: "string \<Rightarrow> real \<Rightarrow> int option \<Rightarrow> Category" where
  "ex_envelope n budget link =
     \<lparr> c_id = n, c_name = n, c_type = expense, monthlyBudget = budget, rollover = 0,
       allocationRule = 0, color = ''#64748b'', startDate = None, scheduledChanges = None,
       linkedPaymentIndex = link \<rparr>"



definition ex_alloc :: "string \<Rightarrow> string \<Rightarrow> string \<Rightarrow> string \<Rightarrow> real \<Rightarrow> Transaction" where
  "ex_alloc i d desc cat a =
     \<lparr> t_id = i, t_date = d, t_amount = a, description = desc,
       categoryId = Some cat, accountId = None, t_type = INCOME, parentTransactionId = None,
       transferDirection = None, transferPeerId = None \<rparr>"









text \<open>A salary recorded for June, seen from the May view.\<close>

definition ex_june_income :: Transaction where
  "ex_june_income =
     \<lparr> t_id = ''j1'', t_date = ''2024-06-15'', t_amount = 500, description = ''Salary'',
       categoryId = None, accountId = None, t_type = INCOME, parentTransactionId = None,
       transferDirection = None, transferPeerId = None \<rparr>"

definition ex_may_income :: Transaction where
  "ex_may_income =
     \<lparr> t_id = ''m1'', t_date = ''2024-05-02'', t_amount = 900, description = ''Salary'',
       categoryId = None, accountId = None, t_type = INCOME, parentTransactionId = None,
       transferDirection = None, transferPeerId = None \<rparr>"

text \<open>A dinner paid from the pool and then funded from the groceries envelope.\<close>

definition ex_ids :: "nat \<Rightarrow> string" where
  "ex_ids k = replicate (Suc k) CHR ''n''"


definition ex_cats :: "Category list" where
  "ex_cats =
     [(ex_envelope ''groc'' 400 None)\<lparr>c_name := ''Groceries''\<rparr>,
      (ex_envelope ''other'' 0 None)\<lparr>c_name := ''Other Expenses''\<rparr>]"

definition ex_dinner :: Transaction where
  "ex_dinner =
     \<lparr> t_id = ''e1'', t_date = ''2024-05-12'', t_amount = 100, description = ''Dinner'',
       categoryId = None, accountId = None, t_type = EXPENSE, parentTransactionId = None,
       transferDirection = None, transferPeerId = None \<rparr>"

definition ex_ledger :: "Transaction list" where
  "ex_ledger =
     [ex_dinner, ex_may_income,
      ex_alloc ''a1'' ''2024-05-03'' ''Allocated: Groceries (50%)'' ''groc'' 500]"



text \<open>
  A funded taxi ride: the whole 100 came from groceries, whose allocation of 80 leaves a
  pool of 20.
\<close>

definition ex_taxi :: Transaction where
  "ex_taxi =
     \<lparr> t_id = ''e2'', t_date = ''2024-05-14'', t_amount = 100, description = ''Taxi'',
       categoryId = Some ''other'', accountId = None, t_type = EXPENSE,
       parentTransactionId = None, transferDirection = None, transferPeerId = None \<rparr>"

definition ex_taxi_ledger :: "Transaction list" where
  "ex_taxi_ledger =
     [ex_taxi,
      (ex_alloc ''c1'' ''2024-05-14'' ''Moved for One-Time: Taxi'' ''groc'' (- 100))
         \<lparr>parentTransactionId := Some ''e2''\<rparr>,
      ex_alloc ''a2'' ''2024-05-03'' ''Allocated: Groceries (50%)'' ''groc'' 80]"

text \<open>A laptop of 1000 against a pool of 300.\<close>

definition ex_onetime :: OneTimeInput where
  "ex_onetime = \<lparr> oneTimeAmount = Some 1000, oneTimeDesc = ''Laptop'', oneTimeDate = ''2024-05-20'',
     fundingSources = [(''groc'', 50)] \<rparr>"







section \<open>Calendar dates: the string order is the order of time\<close>

subsection \<open>Day numbers\<close>

lemma div_succ:
  fixes y k :: int
  assumes "0 < k"
  shows "(y + 1) div k = y div k + (if (y + 1) mod k = 0 then 1 else 0)"
proof -
  define q r where "q = y div k" and "r = y mod k"
  have y: "y = k * q + r" by (simp add: q_def r_def)
  have r: "0 \<le> r" "r < k" using assms by (simp_all add: r_def)
  show ?thesis
  proof (cases "r + 1 = k")
    case True
    then have e: "y + 1 = k * (q + 1) + 0" using y by (simp add: algebra_simps)
    have "(y + 1) div k = q + 1" by (rule int_div_pos_eq[OF e]) (use assms in simp_all)
    moreover have "(y + 1) mod k = 0" by (rule int_mod_pos_eq[OF e]) (use assms in simp_all)
    ultimately show ?thesis by (simp add: q_def)
  next
    case False
    with r have lt: "r + 1 < k" by simp
    have e: "y + 1 = k * q + (r + 1)" using y by simp
    have "(y + 1) div k = q" by (rule int_div_pos_eq[OF e]) (use r lt in simp_all)
    moreover have "(y + 1) mod k = r + 1" by (rule int_mod_pos_eq[OF e]) (use r lt in simp_all)
    ultimately show ?thesis using r by (simp add: q_def)
  qed
qed

lemma dvd_mod0:
  fixes z :: int
  assumes "z mod k = 0" "j dvd k"
  shows "z mod j = 0"
proof -
  from assms(1) have "k dvd z" by (simp add: dvd_eq_mod_eq_0)
  with assms(2) have "j dvd z" by (rule dvd_trans)
  then show ?thesis by simp
qed

lemma era_split:
  fixes z :: int
  shows "(z div 400) * 146097 + (z - (z div 400) * 400) * 365 + (z - (z div 400) * 400) div 4
            - (z - (z div 400) * 400) div 100 = yearDays z"
proof -
  define e r where "e = z div 400" and "r = z mod 400"
  have z: "z = 400 * e + r" by (simp add: e_def r_def)
  have a: "z div 4 = 100 * e + r div 4"
  proof -
    have "z = 4 * (100 * e) + r" using z by simp
    then have "z div 4 = (4 * (100 * e) + r) div 4" by simp
    also have "\<dots> = 100 * e + r div 4" by (rule div_mult_self4) simp
    finally show ?thesis .
  qed
  have b: "z div 100 = 4 * e + r div 100"
  proof -
    have "z = 100 * (4 * e) + r" using z by simp
    then have "z div 100 = (100 * (4 * e) + r) div 100" by simp
    also have "\<dots> = 4 * e + r div 100" by (rule div_mult_self4) simp
    finally show ?thesis .
  qed
  have c: "z - e * 400 = r" using z by simp
  have d: "z div 400 = e" by (simp add: e_def)
  show ?thesis
    unfolding yearDays_def d c a b using z by simp
qed

lemma yearDays_step: "yearDays (y + 1) = yearDays y + 365 + (if isLeap (y + 1) then 1 else 0)"
proof -
  have a: "(y + 1) div 4 = y div 4 + (if (y + 1) mod 4 = 0 then 1 else 0)"
    by (rule div_succ) simp
  have b: "(y + 1) div 100 = y div 100 + (if (y + 1) mod 100 = 0 then 1 else 0)"
    by (rule div_succ) simp
  have c: "(y + 1) div 400 = y div 400 + (if (y + 1) mod 400 = 0 then 1 else 0)"
    by (rule div_succ) simp
  have d: "(y + 1) mod 400 = 0 \<Longrightarrow> (y + 1) mod 100 = 0" by (erule dvd_mod0) simp
  have e: "(y + 1) mod 100 = 0 \<Longrightarrow> (y + 1) mod 4 = 0" by (erule dvd_mod0) simp
  show ?thesis
    unfolding yearDays_def isLeap_def a b c using d e by auto
qed

lemma yearDays_pred: "yearDays y = yearDays (y - 1) + 365 + (if isLeap y then 1 else 0)"
  using yearDays_step[of "y - 1"] by simp

lemma days_from_civil_alt:
  "days_from_civil y m d =
     yearDays (if m \<le> 2 then y - 1 else y)
     + (153 * (if m > 2 then m - 3 else m + 9) + 2) div 5 + d - 1 - 719468"
  unfolding days_from_civil_def Let_def
  using era_split[of "if m \<le> 2 then y - 1 else y"] by simp

subsection \<open>Later months and days have later day numbers\<close>

lemma next_month:
  assumes "1 \<le> m" "m \<le> 11"
  shows "days_from_civil y (m + 1) 1 = days_from_civil y m 1 + daysInMonth y m"
proof -
  from assms have "m = 1 \<or> m = 2 \<or> m = 3 \<or> m = 4 \<or> m = 5 \<or> m = 6 \<or> m = 7
    \<or> m = 8 \<or> m = 9 \<or> m = 10 \<or> m = 11" by presburger
  then show ?thesis
    using yearDays_pred[of y]
    by (elim disjE) (simp_all add: days_from_civil_alt daysInMonth_def)
qed

lemma next_year: "days_from_civil (y + 1) 1 1 = days_from_civil y 12 1 + daysInMonth y 12"
  by (simp add: days_from_civil_alt daysInMonth_def)

lemma daysInMonth_ge: "28 \<le> daysInMonth y m"
  by (simp add: daysInMonth_def)

lemma day_in_month: "days_from_civil y m d = days_from_civil y m 1 + d - 1"
  by (simp add: days_from_civil_alt)

lemma months_ahead:
  assumes "1 \<le> m" "m \<le> 12" "1 \<le> m'" "m' \<le> 12" "12 * y' + m' = 12 * y + m + int n"
  shows "days_from_civil y m 1 \<le> days_from_civil y' m' 1"
  using assms
proof (induction n arbitrary: y' m')
  case 0
  then have "y' = y \<and> m' = m" by presburger
  then show ?case by simp
next
  case (Suc n)
  show ?case
  proof (cases "m' = 1")
    case True
    with Suc.prems have e: "12 * (y' - 1) + 12 = 12 * y + m + int n" by simp
    have "days_from_civil y m 1 \<le> days_from_civil (y' - 1) 12 1"
      by (rule Suc.IH[OF Suc.prems(1,2) _ _ e]) simp_all
    also have "\<dots> \<le> days_from_civil y' 1 1"
      using next_year[of "y' - 1"] daysInMonth_ge[of "y' - 1" 12] by simp
    finally show ?thesis using True by simp
  next
    case False
    with Suc.prems have m': "1 \<le> m' - 1" "m' - 1 \<le> 12" "m' - 1 \<le> 11"
        "12 * y' + (m' - 1) = 12 * y + m + int n"
      by simp_all
    have "days_from_civil y m 1 \<le> days_from_civil y' (m' - 1) 1"
      by (rule Suc.IH[OF Suc.prems(1,2) m'(1,2,4)])
    also have "\<dots> \<le> days_from_civil y' m' 1"
      using next_month[OF m'(1,3), of y'] daysInMonth_ge[of y' "m' - 1"] by simp
    finally show ?thesis .
  qed
qed

lemma month_end_before_next:
  assumes "1 \<le> m" "m \<le> 12" "1 \<le> m'" "m' \<le> 12" "12 * y + m < 12 * y' + m'"
    and "d \<le> daysInMonth y m" "1 \<le> d'"
  shows "days_from_civil y m d < days_from_civil y' m' d'"
proof -
  define ys ms where "ys = (if m = 12 then y + 1 else y)" and "ms = (if m = 12 then 1 else m + 1)"
  have s: "1 \<le> ms" "ms \<le> 12" "12 * ys + ms = 12 * y + m + 1"
    using assms(1,2) by (auto simp: ys_def ms_def)
  have nx: "days_from_civil ys ms 1 = days_from_civil y m 1 + daysInMonth y m"
    using next_month[of m y] next_year[of y] assms(1,2) by (auto simp: ys_def ms_def)
  define n where "n = nat (12 * y' + m' - (12 * ys + ms))"
  have n: "12 * y' + m' = 12 * ys + ms + int n"
    using assms(5) s(3) by (simp add: n_def)
  from months_ahead[OF s(1,2) assms(3,4) n]
  have "days_from_civil ys ms 1 \<le> days_from_civil y' m' 1" .
  with nx assms(6,7) day_in_month[of y m d] day_in_month[of y' m' d'] show ?thesis by simp
qed

subsection \<open>Comparing dates as strings\<close>

lemma isDigit_of_char:
  assumes "isDigit c"
  shows "of_char c = 48 + digit_val c \<and> digit_val c \<le> 9"
  using assms by (auto simp: isDigit_def digit_val_def)

lemma digit_less:
  assumes "isDigit a" "isDigit b"
  shows "(a < b) = (digit_val a < digit_val b)"
  using isDigit_of_char[OF assms(1)] isDigit_of_char[OF assms(2)]
  by (simp add: less_char_def)

lemma digit_eq:
  assumes "isDigit a" "isDigit b"
  shows "(a = b) = (digit_val a = digit_val b)"
proof -
  have "(a = b) = (of_char a = (of_char b :: nat))" by simp
  then show ?thesis
    using isDigit_of_char[OF assms(1)] isDigit_of_char[OF assms(2)] by simp
qed

lemma foldl_digits:
  "foldl (\<lambda>n c. 10 * n + digit_val c) n xs = n * 10 ^ length xs + parse_nat xs"
  unfolding parse_nat_def by (induction xs rule: rev_induct) (simp_all add: algebra_simps)

lemma parse_nat_Cons: "parse_nat (c # xs) = digit_val c * 10 ^ length xs + parse_nat xs"
proof -
  have "parse_nat (c # xs) = foldl (\<lambda>n c. 10 * n + digit_val c) (digit_val c) xs"
    by (simp add: parse_nat_def)
  then show ?thesis by (simp only: foldl_digits)
qed

lemma parse_nat_Nil: "parse_nat [] = 0"
  by (simp add: parse_nat_def)

lemma parse_nat_bound: "list_all isDigit xs \<Longrightarrow> parse_nat xs < 10 ^ length xs"
proof (induction xs)
  case Nil
  then show ?case by (simp add: parse_nat_Nil)
next
  case (Cons c xs)
  then have b: "digit_val c \<le> 9" and p: "parse_nat xs < 10 ^ length xs"
    using isDigit_of_char[of c] by simp_all
  have le: "digit_val c * 10 ^ length xs \<le> 9 * 10 ^ length xs"
    using b by (rule mult_le_mono1)
  have e: "(10::nat) ^ length (c # xs) = 10 * 10 ^ length xs" by simp
  show ?case unfolding parse_nat_Cons e using le p by linarith
qed

lemma lex_num:
  fixes a b p q X :: nat
  assumes "p < X" "q < X"
  shows "(a * X + p < b * X + q) = (a < b \<or> a = b \<and> p < q)"
proof -
  have 1: "a * X + p < b * X + q" if "a < b"
  proof -
    have "a * X + p < (a + 1) * X" using assms(1) by simp
    also have "\<dots> \<le> b * X" using that by (intro mult_le_mono1) simp
    finally show ?thesis by simp
  qed
  have 2: "b * X + q < a * X + p" if "b < a"
  proof -
    have "b * X + q < (b + 1) * X" using assms(2) by simp
    also have "\<dots> \<le> a * X" using that by (intro mult_le_mono1) simp
    finally show ?thesis by simp
  qed
  show ?thesis
  proof (cases a b rule: linorder_cases)
    case less
    then show ?thesis using 1 by simp
  next
    case equal
    then show ?thesis by simp
  next
    case greater
    then show ?thesis using 2 by fastforce
  qed
qed

lemma digits_less:
  assumes "length xs = length ys" "list_all isDigit xs" "list_all isDigit ys"
  shows "(xs < ys) = (parse_nat xs < parse_nat ys)"
  using assms
proof (induction xs ys rule: list_induct2)
  case Nil
  then show ?case by simp
next
  case (Cons a xs b ys)
  then have d: "isDigit a" "isDigit b" and l: "list_all isDigit xs" "list_all isDigit ys"
    by simp_all
  have ih: "(xs < ys) = (parse_nat xs < parse_nat ys)" using Cons.IH l by simp
  have pb: "parse_nat xs < 10 ^ length xs" "parse_nat ys < 10 ^ length xs"
    using parse_nat_bound[OF l(1)] parse_nat_bound[OF l(2)] Cons.hyps by simp_all
  show ?case
    unfolding Cons_less_Cons parse_nat_Cons Cons.hyps[symmetric] lex_num[OF pb]
      digit_less[OF d] digit_eq[OF d] ih ..
qed

lemma digits_eq:
  assumes "length xs = length ys" "list_all isDigit xs" "list_all isDigit ys"
  shows "(xs = ys) = (parse_nat xs = parse_nat ys)"
proof -
  have "(xs = ys) = (\<not> xs < ys \<and> \<not> ys < xs)" by auto
  also have "\<dots> = (parse_nat xs = parse_nat ys)"
    unfolding digits_less[OF assms] digits_less[OF assms(1)[symmetric] assms(3,2)] by auto
  finally show ?thesis .
qed

lemma append_le_append:
  fixes xs ys us vs :: "char list"
  assumes "length xs = length ys"
  shows "(xs @ us \<le> ys @ vs) = (xs < ys \<or> xs = ys \<and> us \<le> vs)"
  using assms by (induction xs ys rule: list_induct2) auto

lemma iso_split:
  assumes "isIsoDate s"
  shows "s = take 4 s @ CHR ''-'' # take 2 (drop 5 s) @ CHR ''-'' # take 2 (drop 8 s)"
    and "length (take 4 s) = 4" and "length (take 2 (drop 5 s)) = 2"
    and "length (take 2 (drop 8 s)) = 2"
    and "list_all isDigit (take 4 s)" and "list_all isDigit (take 2 (drop 5 s))"
    and "list_all isDigit (take 2 (drop 8 s))"
proof -
  from assms have l: "length s = 10" and c: "s ! 4 = CHR ''-''" "s ! 7 = CHR ''-''"
    and d: "list_all isDigit (take 4 s)" "list_all isDigit (take 2 (drop 5 s))"
      "list_all isDigit (drop 8 s)"
    by (simp_all add: isIsoDate_def)
  have t: "take 2 (drop 8 s) = drop 8 s" using l by simp
  have "s = take 4 s @ drop 4 s" by simp
  also have "drop 4 s = s ! 4 # drop 5 s" using l Cons_nth_drop_Suc[of 4 s] by simp
  also have "drop 5 s = take 2 (drop 5 s) @ drop 2 (drop 5 s)"
    by (rule append_take_drop_id[symmetric])
  also have "drop 2 (drop 5 s) = drop 7 s" by simp
  also have "drop 7 s = s ! 7 # drop 8 s" using l Cons_nth_drop_Suc[of 7 s] by simp
  finally show "s = take 4 s @ CHR ''-'' # take 2 (drop 5 s) @ CHR ''-'' # take 2 (drop 8 s)"
    unfolding c t .
  show "length (take 4 s) = 4" "length (take 2 (drop 5 s)) = 2" "length (take 2 (drop 8 s)) = 2"
    using l by simp_all
  show "list_all isDigit (take 4 s)" "list_all isDigit (take 2 (drop 5 s))"
    "list_all isDigit (take 2 (drop 8 s))"
    using d t by simp_all
qed

lemma iso_le:
  assumes "isIsoDate s" "isIsoDate t"
  shows "(s \<le> t) =
    (parse_nat (take 4 s) < parse_nat (take 4 t)
     \<or> parse_nat (take 4 s) = parse_nat (take 4 t)
       \<and> (parse_nat (take 2 (drop 5 s)) < parse_nat (take 2 (drop 5 t))
          \<or> parse_nat (take 2 (drop 5 s)) = parse_nat (take 2 (drop 5 t))
            \<and> parse_nat (take 2 (drop 8 s)) \<le> parse_nat (take 2 (drop 8 t))))"
proof -
  note a = iso_split[OF assms(1)] and b = iso_split[OF assms(2)]
  have ly: "length (take 4 s) = length (take 4 t)" using a(2) b(2) by simp
  have lm: "length (take 2 (drop 5 s)) = length (take 2 (drop 5 t))" using a(3) b(3) by simp
  have ld: "length (take 2 (drop 8 s)) = length (take 2 (drop 8 t))" using a(4) b(4) by simp
  have dle: "(take 2 (drop 8 s) \<le> take 2 (drop 8 t))
      = (parse_nat (take 2 (drop 8 s)) \<le> parse_nat (take 2 (drop 8 t)))"
    using digits_less[OF ld a(7) b(7)] digits_eq[OF ld a(7) b(7)]
    by (auto simp: order_le_less)
  have "(s \<le> t) = (take 4 s @ CHR ''-'' # take 2 (drop 5 s) @ CHR ''-'' # take 2 (drop 8 s)
      \<le> take 4 t @ CHR ''-'' # take 2 (drop 5 t) @ CHR ''-'' # take 2 (drop 8 t))"
    using a(1) b(1) by simp
  also have "\<dots> = (take 4 s < take 4 t \<or> take 4 s = take 4 t
      \<and> (take 2 (drop 5 s) < take 2 (drop 5 t) \<or> take 2 (drop 5 s) = take 2 (drop 5 t)
         \<and> take 2 (drop 8 s) \<le> take 2 (drop 8 t)))"
    unfolding append_le_append[OF ly] Cons_le_Cons append_le_append[OF lm] by simp
  finally show ?thesis
    unfolding digits_less[OF ly a(5) b(5)] digits_eq[OF ly a(5) b(5)]
      digits_less[OF lm a(6) b(6)] digits_eq[OF lm a(6) b(6)] dle .
qed

lemma civil_less:
  assumes "1 \<le> m" "m \<le> 12" "1 \<le> d" "d \<le> daysInMonth y m"
    and "1 \<le> m'" "m' \<le> 12" "1 \<le> d'" "d' \<le> daysInMonth y' m'"
    and "y < y' \<or> y = y' \<and> (m < m' \<or> m = m' \<and> d < d')"
  shows "days_from_civil y m d < days_from_civil y' m' d'"
proof (cases "12 * y + m < 12 * y' + m'")
  case True
  then show ?thesis by (rule month_end_before_next[OF assms(1,2,5,6) _ assms(4,7)])
next
  case False
  with assms have "y = y' \<and> m = m' \<and> d < d'" by linarith
  then show ?thesis using day_in_month[of y m d] day_in_month[of y m d'] by simp
qed

lemma civil_le:
  assumes "1 \<le> m" "m \<le> 12" "1 \<le> d" "d \<le> daysInMonth y m"
    and "1 \<le> m'" "m' \<le> 12" "1 \<le> d'" "d' \<le> daysInMonth y' m'"
  shows "(y < y' \<or> y = y' \<and> (m < m' \<or> m = m' \<and> d \<le> d'))
     = (days_from_civil y m d \<le> days_from_civil y' m' d')"
proof (cases "y < y' \<or> y = y' \<and> (m < m' \<or> m = m' \<and> d < d')")
  case True
  from civil_less[OF assms True] True show ?thesis by auto
next
  case False
  show ?thesis
  proof (cases "y = y' \<and> m = m' \<and> d = d'")
    case True
    then show ?thesis by simp
  next
    case False
    with \<open>\<not> (y < y' \<or> y = y' \<and> (m < m' \<or> m = m' \<and> d < d'))\<close>
    have r: "y' < y \<or> y' = y \<and> (m' < m \<or> m' = m \<and> d' < d)" by linarith
    from civil_less[OF assms(5-8) assms(1-4) r] r show ?thesis by auto
  qed
qed

lemma valid_iso_order:
  assumes "validIsoDate a" "validIsoDate b"
  shows "(a \<le> b) = (getTime a \<le> getTime b)"
proof -
  from assms have i: "isIsoDate a" "isIsoDate b" by (simp_all add: validIsoDate_def)
  from assms(1) have va: "1 \<le> int (parse_nat (take 2 (drop 5 a)))"
      "int (parse_nat (take 2 (drop 5 a))) \<le> 12" "1 \<le> int (parse_nat (take 2 (drop 8 a)))"
      "int (parse_nat (take 2 (drop 8 a)))
         \<le> daysInMonth (int (parse_nat (take 4 a))) (int (parse_nat (take 2 (drop 5 a))))"
    by (simp_all add: validIsoDate_def Let_def)
  from assms(2) have vb: "1 \<le> int (parse_nat (take 2 (drop 5 b)))"
      "int (parse_nat (take 2 (drop 5 b))) \<le> 12" "1 \<le> int (parse_nat (take 2 (drop 8 b)))"
      "int (parse_nat (take 2 (drop 8 b)))
         \<le> daysInMonth (int (parse_nat (take 4 b))) (int (parse_nat (take 2 (drop 5 b))))"
    by (simp_all add: validIsoDate_def Let_def)
  show ?thesis
    unfolding iso_le[OF i] getTime_def
    using civil_le[OF va vb] by simp
qed

lemma valid_dates_agree:
  assumes "list_all validIsoDate (map sc_date chs)"
  shows "dates_agree chs"
  using assms valid_iso_order by (auto simp: dates_agree_def list_all_iff)


section \<open>Schedule resolver: the latest change on or before the date wins\<close>

lemma find_sorted_key_max:
  fixes k :: "'a \<Rightarrow> int"
  assumes "find P (sort_key k xs) = Some a"
  shows "a \<in> set xs \<and> P a \<and> (\<forall>b\<in>set xs. P b \<longrightarrow> k a \<le> k b)"
proof -
  let ?ys = "sort_key k xs"
  from assms obtain i where i: "i < length ?ys" "P (?ys ! i)" "a = ?ys ! i" "\<forall>j<i. \<not> P (?ys ! j)"
    unfolding find_Some_iff by blast
  have srt: "sorted (map k ?ys)" by (rule sorted_sort_key)
  have "a \<in> set xs" using i(1,3) by (metis nth_mem set_sort)
  moreover have "P a" using i by simp
  moreover have "k a \<le> k b" if b: "b \<in> set xs" "P b" for b
  proof -
    from b(1) have "b \<in> set ?ys" by simp
    then obtain j where j: "j < length ?ys" "?ys ! j = b"
      unfolding in_set_conv_nth by blast
    with b(2) i(4) have "i \<le> j" by (metis not_le_imp_less)
    with srt j(1) have "map k ?ys ! i \<le> map k ?ys ! j"
      by (simp add: sorted_iff_nth_mono del: length_sort)
    with i j show ?thesis by simp
  qed
  ultimately show ?thesis by blast
qed

lemma dates_agree_iff:
  "dates_agree chs = (\<forall>a\<in>set chs. \<forall>b\<in>set chs. (sc_date a \<le> sc_date b) = (getTime (sc_date a) \<le> getTime (sc_date b)))"
  by (simp add: dates_agree_def list_all_iff)

text \<open>
  Whenever the two orders agree on the dates of the schedule, the change found is a latest
  one among those on or before the date.
\<close>

lemma latest_change_wins:
  assumes "dates_agree (schedule cat)"
  shows "((\<forall>ch\<in>set (schedule cat). asOf < sc_date ch) \<longrightarrow>
            getBudgetForDate cat asOf = monthlyBudget cat)
       \<and> ((\<exists>ch\<in>set (schedule cat). sc_date ch \<le> asOf) \<longrightarrow>
            (\<exists>ch\<in>set (schedule cat). sc_date ch \<le> asOf
               \<and> (\<forall>ch'\<in>set (schedule cat). sc_date ch' \<le> asOf \<longrightarrow> sc_date ch' \<le> sc_date ch)
               \<and> getBudgetForDate cat asOf = sc_amount ch))"
proof (intro conjI impI)
  assume fut: "\<forall>ch\<in>set (schedule cat). asOf < sc_date ch"
  show "getBudgetForDate cat asOf = monthlyBudget cat"
  proof (cases "scheduledChanges cat")
    case None
    then show ?thesis by (simp add: getBudgetForDate_def)
  next
    case (Some chs)
    with fut have "\<forall>ch\<in>set chs. \<not> sc_date ch \<le> asOf" by (auto simp: schedule_def)
    then have "find (\<lambda>change. sc_date change \<le> asOf) (sort_key (\<lambda>change. - getTime (sc_date change)) chs) = None"
      by (simp add: find_None_iff)
    with Some show ?thesis by (simp add: getBudgetForDate_def)
  qed
next
  assume ex: "\<exists>ch\<in>set (schedule cat). sc_date ch \<le> asOf"
  then obtain chs where chs0: "scheduledChanges cat = Some chs"
    by (cases "scheduledChanges cat") (auto simp: schedule_def)
  then have chs1: "schedule cat = chs" by (simp add: schedule_def)
  with ex have "chs \<noteq> []" by auto
  note chs = chs0 chs1 this
  let ?P = "\<lambda>change. sc_date change \<le> asOf"
  let ?k = "\<lambda>change. - getTime (sc_date change)"
  from ex chs have "find ?P (sort_key ?k chs) \<noteq> None" by (auto simp: find_None_iff)
  then obtain a where a: "find ?P (sort_key ?k chs) = Some a" by auto
  from find_sorted_key_max[OF a]
  have m: "a \<in> set chs" "sc_date a \<le> asOf" "\<forall>b\<in>set chs. ?P b \<longrightarrow> ?k a \<le> ?k b" by auto
  have "sc_date b \<le> sc_date a" if "b \<in> set chs" "sc_date b \<le> asOf" for b
    using m that assms chs(2) by (auto simp: dates_agree_iff)
  moreover have "getBudgetForDate cat asOf = sc_amount a"
    using chs a by (simp add: getBudgetForDate_def)
  ultimately show "\<exists>ch\<in>set (schedule cat). sc_date ch \<le> asOf
               \<and> (\<forall>ch'\<in>set (schedule cat). sc_date ch' \<le> asOf \<longrightarrow> sc_date ch' \<le> sc_date ch)
               \<and> getBudgetForDate cat asOf = sc_amount ch"
    using m chs by blast
qed

text \<open>
  C3. For a category whose scheduled changes carry dates of the documented format
  \<^verbatim>\<open>YYYY-MM-DD\<close>: when every scheduled change is dated after the as-of date (or there
  is none), the effective target is the base \<open>monthlyBudget\<close>; when some change is dated
  on or before the as-of date, the effective target is the amount of a change of the
  schedule that is dated on or before the as-of date and has the maximum date among those.
\<close>

theorem getBudgetForDate_latest:
  assumes "list_all validIsoDate (map sc_date (schedule cat))"
  shows "((\<forall>ch\<in>set (schedule cat). asOf < sc_date ch) \<longrightarrow>
            getBudgetForDate cat asOf = monthlyBudget cat)
       \<and> ((\<exists>ch\<in>set (schedule cat). sc_date ch \<le> asOf) \<longrightarrow>
            (\<exists>ch\<in>set (schedule cat). sc_date ch \<le> asOf
               \<and> (\<forall>ch'\<in>set (schedule cat). sc_date ch' \<le> asOf \<longrightarrow> sc_date ch' \<le> sc_date ch)
               \<and> getBudgetForDate cat asOf = sc_amount ch))"
  by (rule latest_change_wins[OF valid_dates_agree[OF assms]])

theorem getBudgetForDate_latest_witness:
  "list_all validIsoDate (map sc_date (schedule ex_cat))
   \<and> list_all (\<lambda>ch. ''2024-01-01'' < sc_date ch) (schedule ex_cat)
   \<and> getBudgetForDate ex_cat ''2024-01-01'' = monthlyBudget ex_cat
   \<and> (\<exists>ch\<in>set (schedule ex_cat). sc_date ch \<le> ''2024-07-01''
          \<and> list_all (\<lambda>ch'. sc_date ch' \<le> ''2024-07-01'' \<longrightarrow> sc_date ch' \<le> sc_date ch) (schedule ex_cat)
          \<and> getBudgetForDate ex_cat ''2024-07-01'' = sc_amount ch)"
proof -
  have h: "list_all validIsoDate (map sc_date (schedule ex_cat))"
    by (simp add: ex_cat_def schedule_def validIsoDate_def isIsoDate_def isDigit_def
        parse_nat_def digit_val_def daysInMonth_def isLeap_def)
  have f: "\<forall>ch\<in>set (schedule ex_cat). ''2024-01-01'' < sc_date ch"
    by (simp add: ex_cat_def schedule_def)
  have e: "\<exists>ch\<in>set (schedule ex_cat). sc_date ch \<le> ''2024-07-01''"
    by (simp add: ex_cat_def schedule_def)
  from getBudgetForDate_latest[OF h, of "''2024-01-01''"] getBudgetForDate_latest[OF h, of "''2024-07-01''"]
  show ?thesis using h f e unfolding list_all_iff by blast
qed

text \<open>The schedule of the spec's example, at the three dates it names.\<close>

lemma getBudgetForDate_example:
  "getBudgetForDate ex_cat ''2024-04-01'' = 150
   \<and> getBudgetForDate ex_cat ''2024-07-01'' = 200
   \<and> getBudgetForDate ex_cat ''2024-01-01'' = 100"
  by (simp add: ex_cat_def getBudgetForDate_def getTime_def parse_nat_def digit_val_def
      days_from_civil_def)

section \<open>Deleting a transaction: what is removed\<close>

lemma distinct_ids_eq:
  assumes "distinct (map t_id prev)" "t \<in> set prev" "c \<in> set prev" "t_id t = t_id c"
  shows "t = c"
  using assms by (meson distinct_map inj_on_def)

lemma deleteTransaction_filter:
  assumes d: "distinct (map t_id prev)"
  shows "deleteTransaction i prev
       = filter (\<lambda>t. t_id t \<noteq> i \<and> parentTransactionId t \<noteq> Some i) prev"
  unfolding deleteTransaction_def Let_def
proof (rule filter_cong[OF refl])
  fix t assume t: "t \<in> set prev"
  show "(t_id t \<notin> set (i # map t_id (filter (\<lambda>t. parentTransactionId t = Some i) prev)))
      = (t_id t \<noteq> i \<and> parentTransactionId t \<noteq> Some i)"
    using distinct_ids_eq[OF d t] t by auto
qed

lemma deleteTransaction_acc_filter:
  assumes d: "distinct (map t_id prev)" and x: "x \<in> set prev" "t_id x = i"
  shows "deleteTransaction_acc i prev
       = filter (\<lambda>t. t_id t \<noteq> i \<and> parentTransactionId t \<noteq> Some i
                   \<and> \<not> (t_type x = TRANSFER \<and> truthy (transferPeerId x) \<and> transferPeerId x = Some (t_id t))) prev"
proof -
  have "find (\<lambda>t. t_id t = i) prev \<noteq> None" using x by (auto simp: find_None_iff)
  then obtain y where y: "find (\<lambda>t. t_id t = i) prev = Some y" by auto
  then have "y \<in> set prev" "t_id y = i"
    by (auto simp: find_Some_iff)
  with distinct_ids_eq[OF d x(1)] x(2) have yx: "y = x" by auto
  show ?thesis
    unfolding deleteTransaction_acc_def y yx option.case Let_def
  proof (rule filter_cong[OF refl])
    fix t assume t: "t \<in> set prev"
    show "(t_id t \<notin> set ([i] @ map t_id (filter (\<lambda>t. parentTransactionId t = Some i) prev) @
              (if t_type x = TRANSFER \<and> truthy (transferPeerId x) then [the (transferPeerId x)] else [])))
        = (t_id t \<noteq> i \<and> parentTransactionId t \<noteq> Some i
             \<and> \<not> (t_type x = TRANSFER \<and> truthy (transferPeerId x) \<and> transferPeerId x = Some (t_id t)))"
      using distinct_ids_eq[OF d t] t by (auto simp: truthy_def split: option.splits)
  qed
qed

text \<open>
  C7, as amended. In a ledger whose transaction ids are pairwise distinct, deleting the id
  of a transaction \<open>x\<close> of the ledger removes, in the first revision, exactly \<open>x\<close> and
  the transactions whose \<open>parentTransactionId\<close> is that id; the account-aware revision
  removes in addition, when \<open>x\<close> is a TRANSFER with a non-empty \<open>transferPeerId\<close>, the
  transaction with that id. Every other transaction stays, unchanged and in its place.
\<close>

theorem deleteTransaction_cascade:
  assumes "distinct (map t_id prev)" and "x \<in> set prev" and "t_id x = i"
  shows "deleteTransaction i prev
           = filter (\<lambda>t. t_id t \<noteq> i \<and> parentTransactionId t \<noteq> Some i) prev
       \<and> deleteTransaction_acc i prev
           = filter (\<lambda>t. t_id t \<noteq> i \<and> parentTransactionId t \<noteq> Some i
                   \<and> \<not> (t_type x = TRANSFER \<and> truthy (transferPeerId x) \<and> transferPeerId x = Some (t_id t))) prev"
  using deleteTransaction_filter[OF assms(1)] deleteTransaction_acc_filter[OF assms] by simp

theorem deleteTransaction_cascade_witness:
  "distinct (map t_id [tr_a, tr_b, tr_c]) \<and> tr_a \<in> set [tr_a, tr_b, tr_c] \<and> t_id tr_a = ''a''
   \<and> deleteTransaction ''a'' [tr_a, tr_b, tr_c] = [tr_b]
   \<and> deleteTransaction_acc ''a'' [tr_a, tr_b, tr_c] = []"
proof -
  have h1: "distinct (map t_id [tr_a, tr_b, tr_c])" by (simp add: tr_a_def tr_b_def tr_c_def)
  have h2: "tr_a \<in> set [tr_a, tr_b, tr_c]" by simp
  have h3: "t_id tr_a = ''a''" by (simp add: tr_a_def)
  from deleteTransaction_cascade[OF h1 h2 h3] h1 h2 h3 show ?thesis
    by (simp add: tr_a_def tr_b_def tr_c_def truthy_def)
qed

text \<open>
  In the account-aware revision, deleting one leg of a transfer removes the other leg,
  which is neither the deleted transaction nor one of its children.
\<close>

theorem deleteTransaction_peer_counterexample:
  "distinct (map t_id [tr_a, tr_b]) \<and> t_id tr_a = ''a''
   \<and> t_id tr_b \<noteq> ''a'' \<and> parentTransactionId tr_b \<noteq> Some ''a''
   \<and> deleteTransaction_acc ''a'' [tr_a, tr_b] = []"
  by (simp add: deleteTransaction_acc_def tr_a_def tr_b_def truthy_def)


section \<open>Allocation engine: what a run distributes\<close>

lemma foldl_add_sum_list:
  fixes f :: "'a \<Rightarrow> real"
  shows "foldl (\<lambda>s x. s + f x) a xs = a + sum_list (map f xs)"
  by (induction xs arbitrary: a) simp_all

lemma sumAmounts_sum_list: "sumAmounts xs = sum_list (map t_amount xs)"
  by (simp add: sumAmounts_def foldl_add_sum_list)




lemma pushEach_length:
  "length (pushEach keep mk ids xs acc) = length acc + length (filter keep xs)"
  by (induction xs arbitrary: acc) simp_all












subsection \<open>Linked payments\<close>







text \<open>A non-positive \<open>linkedPaymentIndex\<close> is treated as no link: the percentage applies.\<close>

lemma multiplierFor_not_positive:
  "linkedPaymentIndex c = Some l \<Longrightarrow> l \<le> 0 \<Longrightarrow> multiplierFor rule c = percentage rule / 100"
  by (simp add: multiplierFor_def)

subsection \<open>Gap fill\<close>








section \<open>Unallocated pool: what is summed\<close>

lemma sum_filter_cong:
  assumes "\<And>t. t \<in> set xs \<Longrightarrow> P t = Q t"
  shows "sum_list (map t_amount (filter P xs)) = sum_list (map t_amount (filter Q xs))"
  using assms by (induction xs) auto

lemma gross_pred:
  "(if t_type t \<noteq> INCOME then False
        else if t_date t > e then False
        else if isLegacySystemTx t then False
        else if \<not> truthy (categoryId t) then True
        else (case findCategory categories (categoryId t) of
                Some cat \<Rightarrow> c_type cat = income
              | None \<Rightarrow> False))
   = (t_date t \<le> e \<and> t_type t = INCOME \<and> \<not> isLegacySystemTx t
        \<and> (\<not> truthy (categoryId t) \<or> taggedType categories t = Some income))"
  by (auto simp: taggedType_def split: option.splits)

lemma alloc_pred:
  "(if t_type t \<noteq> INCOME then False
        else if t_date t > e then False
        else if \<not> truthy (categoryId t) then False
        else (case findCategory categories (categoryId t) of
                Some cat \<Rightarrow> c_type cat = expense \<or> c_type cat = investment
              | None \<Rightarrow> False))
   = (t_date t \<le> e \<and> t_type t = INCOME
        \<and> (taggedType categories t = Some expense \<or> taggedType categories t = Some investment))"
  by (auto simp: taggedType_def split: option.splits)

text \<open>
  C4, as amended. The Dashboard's pool for the viewed month is the opening balance, plus
  the income that is uncategorized or tagged to an income-type category (the legacy marker
  descriptions left out), minus the income tagged to an expense- or investment-type
  category, minus the uncategorized expenses, every sum taken over the transactions dated
  on or before the end of the viewed month.
\<close>

theorem pool_upto_view_month:
  "totalUnallocatedAvailable incomeSources categories endOfViewMonthStr transactions
     = pool_spec (openingBalanceOf incomeSources) categories
         (filter (\<lambda>t. t_date t \<le> endOfViewMonthStr) transactions)"
  unfolding totalUnallocatedAvailable_def pool_spec_def grossIncomeTransactions_def
    allocatedTransactions_def uncategorizedExpenses_def sumAmounts_sum_list filter_filter
    gross_pred alloc_pred
  by (simp add: conj_commute conj_left_commute)

text \<open>
  The Transactions page computes the same three sums over the whole ledger and adds no
  opening balance.
\<close>

lemma pool_tx:
  "totalUnallocatedAvailable_tx categories transactions = pool_spec 0 categories transactions"
proof -
  have g: "sum_list (map t_amount
              (filter (\<lambda>t. (t_type t = INCOME
                   \<and> (\<not> truthy (categoryId t)
                       \<or> map_option c_type (findCategory categories (categoryId t)) = Some income))
                   \<and> description t \<noteq> ''Funds Distributed to Envelopes''
                   \<and> description t \<noteq> ''Unallocated Remainder''
                   \<and> description t \<noteq> ''Filled Envelopes'') transactions))
         = sum_list (map t_amount
              (filter (\<lambda>t. t_type t = INCOME \<and> \<not> isLegacySystemTx t
                   \<and> (\<not> truthy (categoryId t) \<or> taggedType categories t = Some income))
                 transactions))"
    by (rule sum_filter_cong) (auto simp: taggedType_def isLegacySystemTx_def)
  have a: "sum_list (map t_amount
              (filter (\<lambda>t. (t_type t = INCOME \<and> truthy (categoryId t)) \<and>
                  (case findCategory categories (categoryId t) of
                     Some cat \<Rightarrow> c_type cat = expense \<or> c_type cat = investment | None \<Rightarrow> False))
                 transactions))
         = sum_list (map t_amount
              (filter (\<lambda>t. t_type t = INCOME \<and> (taggedType categories t = Some expense
                                   \<or> taggedType categories t = Some investment)) transactions))"
    by (rule sum_filter_cong) (auto simp: taggedType_def split: option.splits)
  show ?thesis
    unfolding totalUnallocatedAvailable_tx_def pool_spec_def Let_def sumAmounts_sum_list filter_filter
      g a by simp
qed

theorem pool_upto_view_month_witness:
  "totalUnallocatedAvailable [] [] ''2024-05-31'' [ex_may_income, ex_june_income] = 900
   \<and> pool_spec (openingBalanceOf []) [] (filter (\<lambda>t. t_date t \<le> ''2024-05-31'') [ex_may_income, ex_june_income]) = 900"
proof -
  have "pool_spec (openingBalanceOf []) [] (filter (\<lambda>t. t_date t \<le> ''2024-05-31'') [ex_may_income, ex_june_income]) = 900"
    by (simp add: pool_spec_def openingBalanceOf_def ex_may_income_def ex_june_income_def
        isLegacySystemTx_def truthy_def taggedType_def)
  with pool_upto_view_month[of "[]" "[]" "''2024-05-31''" "[ex_may_income, ex_june_income]"]
  show ?thesis by simp
qed

text \<open>
  An uncategorized income of 500 dated in June is income of the ledger, and the pool shown
  for May does not count it.
\<close>

theorem pool_ignores_later_months_counterexample:
  "totalUnallocatedAvailable [] [] ''2024-05-31'' [ex_june_income] = 0
   \<and> pool_spec (openingBalanceOf []) [] [ex_june_income] = 500"
  by (simp add: totalUnallocatedAvailable_def grossIncomeTransactions_def allocatedTransactions_def
      uncategorizedExpenses_def sumAmounts_def pool_spec_def openingBalanceOf_def
      ex_june_income_def isLegacySystemTx_def truthy_def taggedType_def)

section \<open>Funding: children are replaced, and insufficient funds stop the run\<close>


lemma childPairs_Cons:
  "childPairs i (a # xs)
     = (if parentTransactionId a = Some i then [(categoryId a, t_amount a)] else []) @ childPairs i xs"
  by (simp add: childPairs_def)















lemma ex_lower: "toLowerCase ''Other Expenses'' = ''other expenses''"
  "toLowerCase ''Groceries'' \<noteq> ''other expenses''"
  by code_simp+


text \<open>
  C6, as amended. A one-time expense of a positive amount whose part still needed from the
  pool (the amount minus the envelope funding) exceeds the Dashboard's pool by more than
  0.01 is reported as insufficient funds, with the expense, the covered part, the needed
  part and the available pool, and nothing is updated. Funding an existing expense on the
  Transactions page is rejected in the same way when the needed part exceeds by more than
  0.01 the pool plus the absolute amounts of the expense's present children; the ledger
  is then left as it was.
\<close>

theorem insufficient_funds_rejected:
  "(oneTimeAmount inp = Some a \<and> 0 < a
      \<and> a - totalFunded (fundingSources inp)
           > totalUnallocatedAvailable incomeSources categories endOfViewMonthStr transactions + 0.01
    \<longrightarrow> handleCreateOneTimeExpense ids
          (totalUnallocatedAvailable incomeSources categories endOfViewMonthStr transactions)
          inp categories transactions
        = Inl (InsufficientFunds a (totalFunded (fundingSources inp))
                 (max 0 (a - totalFunded (fundingSources inp)))
                 (totalUnallocatedAvailable incomeSources categories endOfViewMonthStr transactions)))
   \<and> (t_amount tx - totalFunded sources
         > totalUnallocatedAvailable_tx categories transactions
           + oldFundedAmount (childrenOf (t_id tx) transactions) + 0.01
      \<longrightarrow> executeFunding ids categories (Some tx) sources transactions
          = Inl (InsufficientFunds (t_amount tx) (totalFunded sources)
                   (max 0 (t_amount tx - totalFunded sources))
                   (totalUnallocatedAvailable_tx categories transactions
                    + oldFundedAmount (childrenOf (t_id tx) transactions)))
        \<and> ledgerAfter (executeFunding ids categories (Some tx) sources transactions) transactions
          = transactions)"
proof -
  let ?pool = "totalUnallocatedAvailable incomeSources categories endOfViewMonthStr transactions"
  let ?eff = "totalUnallocatedAvailable_tx categories transactions
           + oldFundedAmount (childrenOf (t_id tx) transactions)"
  have A: "handleCreateOneTimeExpense ids ?pool inp categories transactions
        = Inl (InsufficientFunds a (totalFunded (fundingSources inp))
                 (max 0 (a - totalFunded (fundingSources inp))) ?pool)"
    if h: "oneTimeAmount inp = Some a \<and> 0 < a \<and> a - totalFunded (fundingSources inp) > ?pool + 0.01"
  proof -
    from h have "max 0 (a - totalFunded (fundingSources inp)) > ?pool + 0.01"
      by linarith
    with h show ?thesis
      by (simp add: handleCreateOneTimeExpense_def Let_def)
  qed
  have B: "executeFunding ids categories (Some tx) sources transactions
          = Inl (InsufficientFunds (t_amount tx) (totalFunded sources)
                   (max 0 (t_amount tx - totalFunded sources)) ?eff)
        \<and> ledgerAfter (executeFunding ids categories (Some tx) sources transactions) transactions
          = transactions"
    if h: "t_amount tx - totalFunded sources > ?eff + 0.01"
  proof -
    from h have "max 0 (t_amount tx - totalFunded sources) > ?eff + 0.01" by linarith
    then have "executeFunding ids categories (Some tx) sources transactions
          = Inl (InsufficientFunds (t_amount tx) (totalFunded sources)
                   (max 0 (t_amount tx - totalFunded sources)) ?eff)"
      by (simp add: executeFunding_def Let_def)
    then show ?thesis by (simp add: ledgerAfter_def)
  qed
  from A B show ?thesis by blast
qed

theorem insufficient_funds_rejected_witness:
  "oneTimeAmount ex_onetime = Some 1000 \<and> (0::real) < 1000
   \<and> totalUnallocatedAvailable [] ex_cats ''2024-05-31'' ex_ledger = 300
   \<and> totalFunded (fundingSources ex_onetime) = 50
   \<and> handleCreateOneTimeExpense ex_ids (totalUnallocatedAvailable [] ex_cats ''2024-05-31'' ex_ledger)
        ex_onetime ex_cats ex_ledger
      = Inl (InsufficientFunds 1000 50 950 300)
   \<and> totalUnallocatedAvailable_tx ex_cats ex_ledger = 300
   \<and> oldFundedAmount (childrenOf (t_id ex_dinner) ex_ledger) = 0
   \<and> executeFunding ex_ids ex_cats (Some (ex_dinner\<lparr>t_amount := 1000\<rparr>)) [(''groc'', 50)] ex_ledger
      = Inl (InsufficientFunds 1000 50 950 300)
   \<and> ledgerAfter (executeFunding ex_ids ex_cats (Some (ex_dinner\<lparr>t_amount := 1000\<rparr>)) [(''groc'', 50)] ex_ledger) ex_ledger
      = ex_ledger"
proof -
  note defs = ex_cats_def ex_envelope_def ex_dinner_def ex_ledger_def ex_onetime_def
    ex_may_income_def ex_alloc_def totalFunded_def childrenOf_def oldFundedAmount_def
    totalUnallocatedAvailable_tx_def totalUnallocatedAvailable_def grossIncomeTransactions_def
    allocatedTransactions_def uncategorizedExpenses_def openingBalanceOf_def isLegacySystemTx_def
    sumAmounts_def findCategory_def truthy_def Let_def
  have p: "totalUnallocatedAvailable [] ex_cats ''2024-05-31'' ex_ledger = 300" by (simp add: defs)
  have p': "totalUnallocatedAvailable_tx ex_cats ex_ledger = 300" by (simp add: defs)
  have f: "totalFunded (fundingSources ex_onetime) = 50" "totalFunded [(''groc'', 50)] = 50"
    by (simp_all add: defs)
  have a: "oneTimeAmount ex_onetime = Some 1000" by (simp add: ex_onetime_def)
  have o: "oldFundedAmount (childrenOf (t_id ex_dinner) ex_ledger) = 0" by (simp add: defs)
  have o': "oldFundedAmount (childrenOf (t_id (ex_dinner\<lparr>t_amount := 1000\<rparr>)) ex_ledger) = 0"
    by (simp add: defs)
  from insufficient_funds_rejected[where inp = ex_onetime and a = 1000 and incomeSources = "[]"
      and categories = ex_cats and endOfViewMonthStr = "''2024-05-31''" and transactions = ex_ledger
      and ids = ex_ids and tx = "ex_dinner\<lparr>t_amount := 1000\<rparr>" and sources = "[(''groc'', 50)]"]
  show ?thesis
    unfolding p p' f o o' using a p p' f o by (simp add: ledgerAfter_def)
qed

text \<open>
  The taxi ride of 100 is fully funded from groceries and the pool holds 20. Funding it
  again with the source set to 0 needs 100 from the pool, 80 more than the pool holds; the
  run is accepted, because the 100 of the present child count as available, and it
  removes that child from the ledger.
\<close>

theorem refunding_beyond_pool_counterexample:
  "t_amount ex_taxi - totalFunded [(''groc'', 0)] = 100
   \<and> totalUnallocatedAvailable_tx ex_cats ex_taxi_ledger = 20
   \<and> ledgerAfter (executeFunding ex_ids ex_cats (Some ex_taxi) [(''groc'', 0)] ex_taxi_ledger) ex_taxi_ledger
      = [ex_taxi, ex_alloc ''a2'' ''2024-05-03'' ''Allocated: Groceries (50%)'' ''groc'' 80]
   \<and> length ex_taxi_ledger = 3"
  by (simp add: executeFunding_def ledgerAfter_def ex_cats_def ex_envelope_def ex_taxi_def
      ex_taxi_ledger_def ex_alloc_def totalFunded_def childrenOf_def oldFundedAmount_def
      totalUnallocatedAvailable_tx_def sumAmounts_def findCategory_def truthy_def
      sourceNames_def List.map_filter_def ex_lower Let_def)

section \<open>Editing an amount rescales the children\<close>



section \<open>Import normalizer: dates and amounts\<close>





















end
